theory Spec2Isabelle
  imports Main "HOL-Library.Monad_Syntax"
begin

section \<open>JavaScript strings\<close>

text \<open>
  A JavaScript string is a sequence of UTF-16 code units. The twelve chess glyphs
  U+2654 .. U+265F are one code unit each, and they do not fit the 8-bit characters of
  \<open>string\<close>, so a string is modelled as the list of its code units. \<open>js\<close> turns an
  ASCII literal into such a list: \<open>js ''e2''\<close> is the square name \<^verbatim>\<open>'e2'\<close>.
\<close>

type_synonym jsstring = "nat list"

definition js :: "string \<Rightarrow> jsstring" where
  "js s = map of_char s"

text \<open>\<^verbatim>\<open>s.includes(p)\<close>: \<open>p\<close> occurs in \<open>s\<close> as a contiguous run of code units.\<close>

primrec js_includes :: "jsstring \<Rightarrow> jsstring \<Rightarrow> bool" where
  "js_includes [] p = (p = [])"
| "js_includes (c # cs) p = (take (length p) (c # cs) = p \<or> js_includes cs p)"

text \<open>\<^verbatim>\<open>String.fromCharCode(n)\<close> keeps the low 16 bits of \<open>n\<close>.\<close>

definition fromCharCode :: "int \<Rightarrow> nat" where
  "fromCharCode n = nat (n mod 65536)"

text \<open>The decimal digits of a natural number, and the string of an integer.\<close>

fun decimal :: "nat \<Rightarrow> jsstring" where
  "decimal n = (if n < 10 then [48 + n] else decimal (n div 10) @ [48 + n mod 10])"

definition numberToString :: "int \<Rightarrow> jsstring" where
  "numberToString i = (if i < 0 then 45 # decimal (nat (- i)) else decimal (nat i))"

text \<open>
  \<^verbatim>\<open>parseInt(c)\<close> of a one-unit string: the digit's value, or NaN (here \<open>None\<close>)
  when the unit is no decimal digit.
\<close>

definition parseInt :: "nat \<Rightarrow> int option" where
  "parseInt c = (if 48 \<le> c \<and> c \<le> 57 then Some (int c - 48) else None)"

section \<open>ChessLogic / ChessValidator\<close>

text \<open>
  The TypeScript class \<^verbatim>\<open>ChessLogic\<close> of the client and the JavaScript class
  \<^verbatim>\<open>ChessValidator\<close> of the server are the same functions, statement for statement;
  one embedding serves both.
\<close>

datatype color = White | Black

datatype pieceType = King | Queen | Rook | Bishop | Knight | Pawn | Unknown

record coords =
  "file" :: int
  rank :: int

text \<open>
  The board is a \<^verbatim>\<open>Record<string, string>\<close>. \<^verbatim>\<open>board[sq]\<close> is falsy when the key
  is absent and when it holds the empty string.
\<close>

type_synonym board = "jsstring \<rightharpoonup> jsstring"

definition truthy :: "jsstring option \<Rightarrow> bool" where
  "truthy v = (case v of None \<Rightarrow> False | Some s \<Rightarrow> s \<noteq> [])"

definition isValidSquare :: "jsstring \<Rightarrow> bool" where
  "isValidSquare square =
     (length square = 2 \<and>
      js_includes (js ''abcdefgh'') [square ! 0] \<and>
      js_includes (js ''12345678'') [square ! 1])"

definition whiteGlyphs :: jsstring where
  "whiteGlyphs = [0x2654, 0x2655, 0x2656, 0x2657, 0x2658, 0x2659]"

definition blackGlyphs :: jsstring where
  "blackGlyphs = [0x265A, 0x265B, 0x265C, 0x265D, 0x265E, 0x265F]"

definition isWhitePiece :: "jsstring \<Rightarrow> bool" where
  "isWhitePiece piece = js_includes whiteGlyphs piece"

definition isBlackPiece :: "jsstring \<Rightarrow> bool" where
  "isBlackPiece piece = js_includes blackGlyphs piece"

definition getPieceColor :: "jsstring \<Rightarrow> color option" where
  "getPieceColor piece =
     (if isWhitePiece piece then Some White
      else if isBlackPiece piece then Some Black
      else None)"

text \<open>
  \<^verbatim>\<open>pieceMap[piece] || 'unknown'\<close>. The only caller switches on the result and sends
  everything but the six kinds to its default branch, so \<open>Unknown\<close> also stands for
  whatever an inherited property name would yield.
\<close>

definition getPieceType :: "jsstring \<Rightarrow> pieceType" where
  "getPieceType piece =
     (if piece = [0x2654] \<or> piece = [0x265A] then King
      else if piece = [0x2655] \<or> piece = [0x265B] then Queen
      else if piece = [0x2656] \<or> piece = [0x265C] then Rook
      else if piece = [0x2657] \<or> piece = [0x265D] then Bishop
      else if piece = [0x2658] \<or> piece = [0x265E] then Knight
      else if piece = [0x2659] \<or> piece = [0x265F] then Pawn
      else Unknown)"

text \<open>
  \<^verbatim>\<open>{file: square.charCodeAt(0) - 97, rank: parseInt(square[1]) - 1}\<close>. A component
  that would be NaN (no such code unit, or no digit) makes the result \<open>None\<close>; the
  callers only pass squares that \<open>isValidSquare\<close> accepted.
\<close>

definition getSquareCoordinates :: "jsstring \<Rightarrow> coords option" where
  "getSquareCoordinates square =
     (case square of
        c0 # c1 # _ \<Rightarrow>
          (case parseInt c1 of
             Some d \<Rightarrow> Some \<lparr>file = int c0 - 97, rank = d - 1\<rparr>
           | None \<Rightarrow> None)
      | _ \<Rightarrow> None)"

text \<open>
  The expression \<^verbatim>\<open>String.fromCharCode('a'.charCodeAt(0) + file) + (rank + 1)\<close>, which
  the source writes out wherever it names the square of a zero-based file and rank.
\<close>

definition squareName :: "int \<Rightarrow> int \<Rightarrow> jsstring" where
  "squareName f r = fromCharCode (97 + f) # numberToString (r + 1)"

definition isValidPawnMove :: "board \<Rightarrow> coords \<Rightarrow> coords \<Rightarrow> bool \<Rightarrow> bool" where
  "isValidPawnMove board from to isWhite =
     (let direction = (if isWhite then 1 else - 1);
          startRank = (if isWhite then 1 else 6);
          fileDiff = \<bar>file to - file from\<bar>;
          rankDiff = rank to - rank from
      in
        if fileDiff = 0 then
          (if rankDiff = direction then
             \<not> truthy (board (squareName (file to) (rank to)))
           else if rankDiff = 2 * direction \<and> rank from = startRank then
             \<not> truthy (board (squareName (file to) (rank from + direction))) \<and>
             \<not> truthy (board (squareName (file to) (rank to)))
           else False)
        else if fileDiff = 1 \<and> rankDiff = direction then
          (case board (squareName (file to) (rank to)) of
             None \<Rightarrow> False
           | Some targetPiece \<Rightarrow>
               targetPiece \<noteq> [] \<and>
               getPieceColor targetPiece \<noteq> Some (if isWhite then White else Black))
        else False)"

text \<open>
  The loop of \<^verbatim>\<open>isPathClear\<close>. It ends only when the walk hits \<open>to\<close>, so it is a
  partial function: \<open>None\<close> is the run that never returns.
\<close>

partial_function (option) isPathClear_loop ::
  "board \<Rightarrow> int \<Rightarrow> int \<Rightarrow> coords \<Rightarrow> int \<Rightarrow> int \<Rightarrow> bool option" where
  "isPathClear_loop board fileStep rankStep to currentFile currentRank =
     (if currentFile \<noteq> file to \<or> currentRank \<noteq> rank to then
        (if truthy (board (squareName currentFile currentRank)) then Some False
         else isPathClear_loop board fileStep rankStep to
                (currentFile + fileStep) (currentRank + rankStep))
      else Some True)"

declare isPathClear_loop.simps [code]

definition isPathClear :: "board \<Rightarrow> coords \<Rightarrow> coords \<Rightarrow> bool option" where
  "isPathClear board from to =
     (let fileStep = (if file to > file from then 1 else if file to < file from then - 1 else 0);
          rankStep = (if rank to > rank from then 1 else if rank to < rank from then - 1 else 0)
      in isPathClear_loop board fileStep rankStep to (file from + fileStep) (rank from + rankStep))"

definition isValidRookMove :: "board \<Rightarrow> coords \<Rightarrow> coords \<Rightarrow> bool option" where
  "isValidRookMove board from to =
     (if file from \<noteq> file to \<and> rank from \<noteq> rank to then Some False
      else isPathClear board from to)"

definition isValidBishopMove :: "board \<Rightarrow> coords \<Rightarrow> coords \<Rightarrow> bool option" where
  "isValidBishopMove board from to =
     (let fileDiff = \<bar>file to - file from\<bar>;
          rankDiff = \<bar>rank to - rank from\<bar>
      in if fileDiff \<noteq> rankDiff then Some False
         else isPathClear board from to)"

definition isValidQueenMove :: "board \<Rightarrow> coords \<Rightarrow> coords \<Rightarrow> bool option" where
  "isValidQueenMove board from to =
     (case isValidRookMove board from to of
        None \<Rightarrow> None
      | Some True \<Rightarrow> Some True
      | Some False \<Rightarrow> isValidBishopMove board from to)"

definition isValidKingMove :: "coords \<Rightarrow> coords \<Rightarrow> bool" where
  "isValidKingMove from to =
     (let fileDiff = \<bar>file to - file from\<bar>;
          rankDiff = \<bar>rank to - rank from\<bar>
      in fileDiff \<le> 1 \<and> rankDiff \<le> 1 \<and> (fileDiff > 0 \<or> rankDiff > 0))"

definition isValidKnightMove :: "coords \<Rightarrow> coords \<Rightarrow> bool" where
  "isValidKnightMove from to =
     (let fileDiff = \<bar>file to - file from\<bar>;
          rankDiff = \<bar>rank to - rank from\<bar>
      in (fileDiff = 2 \<and> rankDiff = 1) \<or> (fileDiff = 1 \<and> rankDiff = 2))"

definition isValidPieceMove :: "board \<Rightarrow> jsstring \<Rightarrow> jsstring \<Rightarrow> jsstring \<Rightarrow> bool option" where
  "isValidPieceMove board from to piece =
     (case (getSquareCoordinates from, getSquareCoordinates to) of
        (Some fromCoords, Some toCoords) \<Rightarrow>
          (let pieceType = getPieceType piece;
               isWhite = isWhitePiece piece
           in case pieceType of
                Pawn \<Rightarrow> Some (isValidPawnMove board fromCoords toCoords isWhite)
              | Rook \<Rightarrow> isValidRookMove board fromCoords toCoords
              | Bishop \<Rightarrow> isValidBishopMove board fromCoords toCoords
              | Queen \<Rightarrow> isValidQueenMove board fromCoords toCoords
              | King \<Rightarrow> Some (isValidKingMove fromCoords toCoords)
              | Knight \<Rightarrow> Some (isValidKnightMove fromCoords toCoords)
              | Unknown \<Rightarrow> Some False)
      | _ \<Rightarrow> None)"

definition isValidMove :: "board \<Rightarrow> jsstring \<Rightarrow> jsstring \<Rightarrow> color \<Rightarrow> bool option" where
  "isValidMove board from to currentPlayer =
     (if \<not> isValidSquare from \<or> \<not> isValidSquare to then Some False
      else case board from of
        None \<Rightarrow> Some False
      | Some piece \<Rightarrow>
          if piece = [] then Some False
          else if getPieceColor piece \<noteq> Some currentPlayer then Some False
          else if (case board to of
                     None \<Rightarrow> False
                   | Some targetPiece \<Rightarrow>
                       targetPiece \<noteq> [] \<and> getPieceColor targetPiece = Some currentPlayer)
            then Some False
          else isValidPieceMove board from to piece)"

section \<open>The game session of the server\<close>

record ChessMove =
  "from" :: jsstring
  to :: jsstring
  piece :: jsstring
  player :: color
  timestamp :: jsstring

record ChessGame =
  gameId :: jsstring
  board :: board
  currentPlayer :: color
  moveHistory :: "ChessMove list"
  gameOver :: bool
  winner :: "jsstring option"

text \<open>
  \<^verbatim>\<open>Object.assign(target, {k1: v1, ...})\<close> writes the properties in their order, a
  later one over an earlier one.
\<close>

definition objectAssign :: "board \<Rightarrow> (jsstring \<times> jsstring) list \<Rightarrow> board" where
  "objectAssign target props = fold (\<lambda>(k, v) m. m(k \<mapsto> v)) props target"

definition initBoard :: board where
  "initBoard =
     (let board = Map.empty;
          board = objectAssign board
            [(js ''a1'', [0x2656]), (js ''b1'', [0x2658]), (js ''c1'', [0x2657]),
             (js ''d1'', [0x2655]), (js ''e1'', [0x2654]), (js ''f1'', [0x2657]),
             (js ''g1'', [0x2658]), (js ''h1'', [0x2656]),
             (js ''a2'', [0x2659]), (js ''b2'', [0x2659]), (js ''c2'', [0x2659]),
             (js ''d2'', [0x2659]), (js ''e2'', [0x2659]), (js ''f2'', [0x2659]),
             (js ''g2'', [0x2659]), (js ''h2'', [0x2659])];
          board = objectAssign board
            [(js ''a8'', [0x265C]), (js ''b8'', [0x265E]), (js ''c8'', [0x265D]),
             (js ''d8'', [0x265B]), (js ''e8'', [0x265A]), (js ''f8'', [0x265D]),
             (js ''g8'', [0x265E]), (js ''h8'', [0x265C]),
             (js ''a7'', [0x265F]), (js ''b7'', [0x265F]), (js ''c7'', [0x265F]),
             (js ''d7'', [0x265F]), (js ''e7'', [0x265F]), (js ''f7'', [0x265F]),
             (js ''g7'', [0x265F]), (js ''h7'', [0x265F])]
      in board)"

text \<open>The constructor \<^verbatim>\<open>new ChessGame(gameId)\<close>.\<close>

definition newChessGame :: "jsstring \<Rightarrow> ChessGame" where
  "newChessGame gid =
     \<lparr>gameId = gid, board = initBoard, currentPlayer = White, moveHistory = [],
      gameOver = False, winner = None\<rparr>"

text \<open>
  \<^verbatim>\<open>makeMove\<close> mutates \<^verbatim>\<open>this\<close> and returns a boolean; the model returns the boolean
  with the session after the call. \<open>now\<close> is what \<^verbatim>\<open>new Date().toISOString()\<close> yields
  at the call. The result is \<open>None\<close> only if the validator does not return.
\<close>

definition makeMove ::
  "ChessGame \<Rightarrow> jsstring \<Rightarrow> jsstring \<Rightarrow> jsstring \<Rightarrow> (bool \<times> ChessGame) option" where
  "makeMove this fromSquare toSquare now =
     (if \<not> isValidSquare fromSquare \<or> \<not> isValidSquare toSquare then Some (False, this)
      else case board this fromSquare of
        None \<Rightarrow> Some (False, this)
      | Some thePiece \<Rightarrow>
          if thePiece = [] then Some (False, this)
          else
            (case isValidMove (board this) fromSquare toSquare (currentPlayer this) of
               None \<Rightarrow> None
             | Some False \<Rightarrow> Some (False, this)
             | Some True \<Rightarrow>
                 Some (True,
                   this\<lparr>board := ((board this)(toSquare \<mapsto> thePiece))(fromSquare := None),
                        moveHistory := moveHistory this @
                          [\<lparr>from = fromSquare, to = toSquare, piece = thePiece,
                            player = currentPlayer this, timestamp = now\<rparr>],
                        currentPlayer := (if currentPlayer this = White then Black else White)\<rparr>)))"

text \<open>\<^verbatim>\<open>getGameState\<close>: the fields of the session and the length of its history.\<close>

record GameState = ChessGame +
  moveCount :: nat

definition getGameState :: "ChessGame \<Rightarrow> GameState" where
  "getGameState this =
     ChessGame.extend this (GameState.fields (length (moveHistory this)))"

text \<open>A run of move attempts \<open>(from, to, now)\<close> on one session, rejected ones included.\<close>

fun makeMoves :: "ChessGame \<Rightarrow> (jsstring \<times> jsstring \<times> jsstring) list \<Rightarrow> ChessGame option" where
  "makeMoves this [] = Some this"
| "makeMoves this ((fromSquare, toSquare, now) # rest) =
     (case makeMove this fromSquare toSquare now of
        None \<Rightarrow> None
      | Some (ok, this') \<Rightarrow> makeMoves this' rest)"

section \<open>The HTTP routes of the server\<close>

text \<open>
  \<^verbatim>\<open>gameStates\<close> is the \<^verbatim>\<open>Map\<close> from game id to session. A route takes it and
  returns its response with the map after the request; the sessions are mutated in
  place, so the entry of the game is the session after \<^verbatim>\<open>makeMove\<close>. The bodies are
  taken to carry strings for \<^verbatim>\<open>from\<close> and \<^verbatim>\<open>to\<close>.
\<close>

type_synonym registry = "jsstring \<rightharpoonup> ChessGame"

datatype response =
    Success GameState
  | AiSuccess "jsstring \<times> jsstring" GameState
  | Error nat string

text \<open>\<^verbatim>\<open>app.post('/api/game/:gameId/move')\<close>\<close>

definition postMove ::
  "registry \<Rightarrow> jsstring \<Rightarrow> jsstring \<Rightarrow> jsstring \<Rightarrow> jsstring \<Rightarrow> (response \<times> registry) option" where
  "postMove gameStates gid fromSquare toSquare now =
     (case gameStates gid of
        None \<Rightarrow> Some (Error 404 ''Game not found'', gameStates)
      | Some game \<Rightarrow>
          if currentPlayer game \<noteq> White then Some (Error 400 ''Not your turn'', gameStates)
          else
            (case makeMove game fromSquare toSquare now of
               None \<Rightarrow> None
             | Some (moveSuccess, game') \<Rightarrow>
                 if \<not> moveSuccess then
                   Some (Error 400 ''Invalid move'', gameStates(gid \<mapsto> game'))
                 else Some (Success (getGameState game'), gameStates(gid \<mapsto> game'))))"

text \<open>
  \<^verbatim>\<open>app.post('/api/game/:gameId/ai-move')\<close>. What \<^verbatim>\<open>await getAIMove(game)\<close> yields
  comes from another process and is a parameter: the promise is rejected, or it
  resolves to a response with its \<^verbatim>\<open>success\<close> flag and, possibly, a move.
\<close>

datatype aiResponse = AiRejected | AiResolved bool "(jsstring \<times> jsstring) option"

definition postAiMove ::
  "registry \<Rightarrow> jsstring \<Rightarrow> aiResponse \<Rightarrow> jsstring \<Rightarrow> (response \<times> registry) option" where
  "postAiMove gameStates gid ai now =
     (case gameStates gid of
        None \<Rightarrow> Some (Error 404 ''Game not found'', gameStates)
      | Some game \<Rightarrow>
          if currentPlayer game \<noteq> Black then Some (Error 400 ''Not AI turn'', gameStates)
          else
            (case ai of
               AiRejected \<Rightarrow> Some (Error 500 ''AI service unavailable'', gameStates)
             | AiResolved success None \<Rightarrow>
                 Some (Error 500 ''AI failed to generate move'', gameStates)
             | AiResolved success (Some (fromSquare, toSquare)) \<Rightarrow>
                 if \<not> success then Some (Error 500 ''AI failed to generate move'', gameStates)
                 else
                   (case makeMove game fromSquare toSquare now of
                      None \<Rightarrow> None
                    | Some (moveSuccess, game') \<Rightarrow>
                        if moveSuccess then
                          Some (AiSuccess (fromSquare, toSquare) (getGameState game'),
                                gameStates(gid \<mapsto> game'))
                        else
                          Some (Error 500 ''AI made invalid move'',
                                gameStates(gid \<mapsto> game')))))"

section \<open>Notions of the specification\<close>

text \<open>
  The squares strictly between \<open>src\<close> and \<open>dst\<close> on the line through them, for two
  squares on one file, one rank or one diagonal: \<open>src\<close> moved by \<open>k\<close> unit steps towards
  \<open>dst\<close>, for every \<open>k\<close> from 1 up to the distance minus one.
\<close>

definition squaresBetween :: "coords \<Rightarrow> coords \<Rightarrow> jsstring list" where
  "squaresBetween src dst =
     map (\<lambda>k. squareName (file src + k * sgn (file dst - file src))
                          (rank src + k * sgn (rank dst - rank src)))
         [1 .. max \<bar>file dst - file src\<bar> \<bar>rank dst - rank src\<bar> - 1]"

text \<open>The conventional back rank, from file a to file h.\<close>

definition backRank :: "pieceType list" where
  "backRank = [Rook, Knight, Bishop, Queen, King, Bishop, Knight, Rook]"

text \<open>The keys that \<open>initBoard\<close> writes.\<close>

definition initialSquares :: "jsstring list" where
  "initialSquares = map js
     [''a1'', ''b1'', ''c1'', ''d1'', ''e1'', ''f1'', ''g1'', ''h1'',
      ''a2'', ''b2'', ''c2'', ''d2'', ''e2'', ''f2'', ''g2'', ''h2'',
      ''a8'', ''b8'', ''c8'', ''d8'', ''e8'', ''f8'', ''g8'', ''h8'',
      ''a7'', ''b7'', ''c7'', ''d7'', ''e7'', ''f7'', ''g7'', ''h7'']"

text \<open>
  The session \<^verbatim>\<open>new ChessGame('1')\<close> after White's \<^verbatim>\<open>e2\<close> to \<^verbatim>\<open>e4\<close> at time \<open>now\<close>.
\<close>

definition afterE2E4 :: "jsstring \<Rightarrow> ChessGame" where
  "afterE2E4 now =
     \<lparr>gameId = js ''1'',
      board = (initBoard(js ''e4'' \<mapsto> [0x2659]))(js ''e2'' := None),
      currentPlayer = Black,
      moveHistory = [\<lparr>from = js ''e2'', to = js ''e4'', piece = [0x2659], player = White,
                      timestamp = now\<rparr>],
      gameOver = False, winner = None\<rparr>"

text \<open>
  A board of pieces: every square that is not empty holds a piece, that is, a string to
  which \<open>getPieceColor\<close> gives a colour. Each of the twelve glyphs is such a string,
  and the boards of the sessions hold nothing else.
\<close>

definition pieceBoard :: "board \<Rightarrow> bool" where
  "pieceBoard b = (\<forall>sq p. b sq = Some p \<and> p \<noteq> [] \<longrightarrow> getPieceColor p \<noteq> None)"

section \<open>Coordinates\<close>

lemma squareName_in_range:
  assumes "0 \<le> f" "f \<le> 7" "0 \<le> r" "r \<le> 7"
  shows "squareName f r = [nat (97 + f), nat (49 + r)]"
proof -
  have "fromCharCode (97 + f) = nat (97 + f)"
    using assms by (simp add: fromCharCode_def)
  moreover have "numberToString (r + 1) = [nat (49 + r)]"
    using assms by (simp add: numberToString_def nat_add_distrib)
  ultimately show ?thesis by (simp add: squareName_def)
qed

section \<open>The path walk\<close>

lemma isPathClear_loop_done:
  "isPathClear_loop b sf sr dst (file dst) (rank dst) = Some True"
  by (subst isPathClear_loop.simps) simp

lemma isPathClear_loop_blocked:
  "cf \<noteq> file dst \<or> cr \<noteq> rank dst \<Longrightarrow> truthy (b (squareName cf cr)) \<Longrightarrow>
   isPathClear_loop b sf sr dst cf cr = Some False"
  by (subst isPathClear_loop.simps) simp

lemma isPathClear_loop_step:
  "cf \<noteq> file dst \<or> cr \<noteq> rank dst \<Longrightarrow> \<not> truthy (b (squareName cf cr)) \<Longrightarrow>
   isPathClear_loop b sf sr dst cf cr = isPathClear_loop b sf sr dst (cf + sf) (cr + sr)"
  by (subst isPathClear_loop.simps) simp

lemma isPathClear_loop_walk:
  assumes step: "sf \<noteq> 0 \<or> sr \<noteq> 0"
  shows "isPathClear_loop b sf sr dst (file dst - int k * sf) (rank dst - int k * sr) =
         Some (\<forall>j \<in> {1..k}. \<not> truthy (b (squareName (file dst - int j * sf) (rank dst - int j * sr))))"
proof (induction k)
  case 0
  show ?case by (simp add: isPathClear_loop_done)
next
  case (Suc k)
  let ?cf = "file dst - int (Suc k) * sf" and ?cr = "rank dst - int (Suc k) * sr"
  have away: "?cf \<noteq> file dst \<or> ?cr \<noteq> rank dst"
    using step by auto
  have next_f: "?cf + sf = file dst - int k * sf" and next_r: "?cr + sr = rank dst - int k * sr"
    by (simp_all add: algebra_simps)
  show ?case
  proof (cases "truthy (b (squareName ?cf ?cr))")
    case True
    have "isPathClear_loop b sf sr dst ?cf ?cr = Some False"
      using away True by (rule isPathClear_loop_blocked)
    moreover have "\<not> (\<forall>j \<in> {1..Suc k}. \<not> truthy (b (squareName (file dst - int j * sf) (rank dst - int j * sr))))"
    proof -
      have "Suc k \<in> {1..Suc k}" by simp
      with True show ?thesis by blast
    qed
    ultimately show ?thesis by simp
  next
    case False
    have "isPathClear_loop b sf sr dst ?cf ?cr =
          isPathClear_loop b sf sr dst (file dst - int k * sf) (rank dst - int k * sr)"
      using isPathClear_loop_step [where cf = "?cf" and cr = "?cr" and dst = dst and b = b
          and sf = sf and sr = sr, OF away False]
      by (simp only: next_f next_r)
    moreover have "(\<forall>j \<in> {1..Suc k}. \<not> truthy (b (squareName (file dst - int j * sf) (rank dst - int j * sr)))) =
                   (\<forall>j \<in> {1..k}. \<not> truthy (b (squareName (file dst - int j * sf) (rank dst - int j * sr))))"
      using False by (auto simp: le_Suc_eq)
    ultimately show ?thesis using Suc.IH by simp
  qed
qed


lemma isPathClear_same:
  "isPathClear b src src = Some True"
  unfolding isPathClear_def by (subst isPathClear_loop.simps) simp

lemma isPathClear_aligned:
  assumes al: "file src = file dst \<or> rank src = rank dst \<or> \<bar>file dst - file src\<bar> = \<bar>rank dst - rank src\<bar>"
  shows "isPathClear b src dst = Some (\<forall>sq \<in> set (squaresBetween src dst). \<not> truthy (b sq))"
proof -
  define sf where "sf = sgn (file dst - file src)"
  define sr where "sr = sgn (rank dst - rank src)"
  define n where "n = max \<bar>file dst - file src\<bar> \<bar>rank dst - rank src\<bar>"
  have steps: "isPathClear b src dst = isPathClear_loop b sf sr dst (file src + sf) (rank src + sr)"
    by (simp add: isPathClear_def sf_def sr_def Let_def sgn_if)
  have n0: "0 \<le> n" by (simp add: n_def)
  have fd: "file dst = file src + n * sf" and rd: "rank dst = rank src + n * sr"
    using al by (auto simp: n_def sf_def sr_def sgn_if max_def abs_if split: if_splits)
  show ?thesis
  proof (cases "n = 0")
    case True
    then have "sf = 0" "sr = 0" by (auto simp: n_def sf_def sr_def max_def split: if_splits)
    moreover have "squaresBetween src dst = []"
      using True by (simp add: squaresBetween_def n_def)
    ultimately show ?thesis
      using steps fd rd True isPathClear_loop_done [of b 0 0 dst] by simp
  next
    case False
    then have npos: "1 \<le> n" using n0 by simp
    have nz: "sf \<noteq> 0 \<or> sr \<noteq> 0"
      using False by (auto simp: n_def sf_def sr_def max_def sgn_if split: if_splits)
    define k where "k = nat (n - 1)"
    have kn: "int k = n - 1" using npos by (simp add: k_def)
    have cur: "file src + sf = file dst - int k * sf" "rank src + sr = rank dst - int k * sr"
    proof -
      have n1: "n = 1 + int k" using kn by simp
      show "file src + sf = file dst - int k * sf" "rank src + sr = rank dst - int k * sr"
        unfolding fd rd n1 by (simp_all add: algebra_simps)
    qed
    have "isPathClear b src dst =
          Some (\<forall>j \<in> {1..k}. \<not> truthy (b (squareName (file dst - int j * sf) (rank dst - int j * sr))))"
      using isPathClear_loop_walk [OF nz, of b dst k] steps cur by simp
    moreover have "(\<forall>j \<in> {1..k}. \<not> truthy (b (squareName (file dst - int j * sf) (rank dst - int j * sr)))) =
                   (\<forall>sq \<in> set (squaresBetween src dst). \<not> truthy (b sq))"
    proof
      assume L: "\<forall>j \<in> {1..k}. \<not> truthy (b (squareName (file dst - int j * sf) (rank dst - int j * sr)))"
      show "\<forall>sq \<in> set (squaresBetween src dst). \<not> truthy (b sq)"
      proof
        fix sq assume "sq \<in> set (squaresBetween src dst)"
        then obtain i where i: "1 \<le> i" "i \<le> n - 1" "sq = squareName (file src + i * sf) (rank src + i * sr)"
          by (auto simp: squaresBetween_def n_def sf_def sr_def)
        define j where "j = nat (n - i)"
        have j: "j \<in> {1..k}" "int j = n - i" using i kn by (auto simp: j_def)
        have n_eq: "n = i + int j" using j(2) by simp
        have "file dst - int j * sf = file src + i * sf" "rank dst - int j * sr = rank src + i * sr"
          unfolding fd rd n_eq by (simp_all add: algebra_simps)
        with L j(1) i(3) show "\<not> truthy (b sq)" by metis
      qed
    next
      assume R: "\<forall>sq \<in> set (squaresBetween src dst). \<not> truthy (b sq)"
      show "\<forall>j \<in> {1..k}. \<not> truthy (b (squareName (file dst - int j * sf) (rank dst - int j * sr)))"
      proof
        fix j assume j: "j \<in> {1..k}"
        define i where "i = n - int j"
        have i: "1 \<le> i" "i \<le> n - 1" using j kn by (auto simp: i_def)
        have n_eq: "n = i + int j" by (simp add: i_def)
        have eq: "file dst - int j * sf = file src + i * sf" "rank dst - int j * sr = rank src + i * sr"
          unfolding fd rd n_eq by (simp_all add: algebra_simps)
        have "squareName (file src + i * sf) (rank src + i * sr) \<in> set (squaresBetween src dst)"
          using i by (auto simp: squaresBetween_def n_def sf_def sr_def)
        with R eq show "\<not> truthy (b (squareName (file dst - int j * sf) (rank dst - int j * sr)))"
          by simp
      qed
    qed
    ultimately show ?thesis by simp
  qed
qed

section \<open>Every check returns\<close>

lemma rook_result:
  "isValidRookMove b src dst =
     Some ((file src = file dst \<or> rank src = rank dst) \<and>
           (\<forall>sq \<in> set (squaresBetween src dst). \<not> truthy (b sq)))"
proof (cases "file src = file dst \<or> rank src = rank dst")
  case True
  then have "isPathClear b src dst = Some (\<forall>sq \<in> set (squaresBetween src dst). \<not> truthy (b sq))"
    by (intro isPathClear_aligned) blast
  with True show ?thesis by (auto simp: isValidRookMove_def)
next
  case False
  then show ?thesis by (simp add: isValidRookMove_def)
qed

lemma bishop_result:
  "isValidBishopMove b src dst =
     Some (\<bar>file dst - file src\<bar> = \<bar>rank dst - rank src\<bar> \<and>
           (\<forall>sq \<in> set (squaresBetween src dst). \<not> truthy (b sq)))"
proof (cases "\<bar>file dst - file src\<bar> = \<bar>rank dst - rank src\<bar>")
  case True
  then have "isPathClear b src dst = Some (\<forall>sq \<in> set (squaresBetween src dst). \<not> truthy (b sq))"
    by (intro isPathClear_aligned) blast
  with True show ?thesis by (simp add: isValidBishopMove_def Let_def)
next
  case False
  then show ?thesis by (simp add: isValidBishopMove_def Let_def)
qed

lemma queen_returns: "\<exists>r. isValidQueenMove b src dst = Some r"
  by (auto simp: isValidQueenMove_def rook_result bishop_result split: bool.splits)

lemma file_letter: "js_includes (js ''abcdefgh'') [c] \<longleftrightarrow> 97 \<le> c \<and> c \<le> 104"
  by (auto simp: js_def)

lemma rank_digit: "js_includes (js ''12345678'') [c] \<longleftrightarrow> 49 \<le> c \<and> c \<le> 56"
  by (auto simp: js_def)

lemma isValidSquare_iff:
  "isValidSquare sq \<longleftrightarrow> (\<exists>c d. sq = [c, d] \<and> 97 \<le> c \<and> c \<le> 104 \<and> 49 \<le> d \<and> d \<le> 56)"
proof
  assume v: "isValidSquare sq"
  then have "length sq = 2" by (simp add: isValidSquare_def)
  then obtain c d where sq: "sq = [c, d]"
    by (cases sq; cases "tl sq") auto
  with v show "\<exists>c d. sq = [c, d] \<and> 97 \<le> c \<and> c \<le> 104 \<and> 49 \<le> d \<and> d \<le> 56"
    by (simp add: isValidSquare_def file_letter rank_digit)
next
  assume "\<exists>c d. sq = [c, d] \<and> 97 \<le> c \<and> c \<le> 104 \<and> 49 \<le> d \<and> d \<le> 56"
  then show "isValidSquare sq"
    by (auto simp: isValidSquare_def file_letter rank_digit)
qed

lemma valid_square_coordinates:
  assumes "isValidSquare sq"
  shows "\<exists>f r. getSquareCoordinates sq = Some \<lparr>file = f, rank = r\<rparr> \<and>
           0 \<le> f \<and> f \<le> 7 \<and> 0 \<le> r \<and> r \<le> 7 \<and> squareName f r = sq"
proof -
  from assms obtain c d where sq: "sq = [c, d]" and c: "97 \<le> c" "c \<le> 104" and d: "49 \<le> d" "d \<le> 56"
    by (auto simp: isValidSquare_iff)
  let ?f = "int c - 97" and ?r = "int d - 49"
  have "getSquareCoordinates sq = Some \<lparr>file = ?f, rank = ?r\<rparr>"
    using d by (simp add: sq getSquareCoordinates_def parseInt_def)
  moreover have "squareName ?f ?r = sq"
    using c d by (simp add: squareName_in_range sq)
  ultimately show ?thesis using c d by auto
qed

lemma isValidPieceMove_returns:
  assumes "isValidSquare src" "isValidSquare dst"
  shows "\<exists>r. isValidPieceMove b src dst p = Some r"
proof -
  obtain sc dc where "getSquareCoordinates src = Some sc" "getSquareCoordinates dst = Some dc"
    using assms valid_square_coordinates by blast
  then show ?thesis
    using queen_returns [of b sc dc]
    by (auto simp: isValidPieceMove_def Let_def rook_result bishop_result split: pieceType.splits)
qed

lemma isValidMove_returns: "\<exists>r. isValidMove b src dst mover = Some r"
  using isValidPieceMove_returns [of src dst b]
  by (auto simp: isValidMove_def split: option.splits)

lemma null_move_rejected: "isValidMove b sq sq mover = Some False"
  by (auto simp: isValidMove_def split: option.splits)

lemma makeMove_returns: "\<exists>ok g'. makeMove g src dst now = Some (ok, g')"
  using isValidMove_returns [of "board g" src dst "currentPlayer g"]
  by (auto simp: makeMove_def split: option.splits bool.splits)

section \<open>Rook geometry, the null move and the square names\<close>

lemma squaresBetween_a1_a8:
  "squaresBetween \<lparr>file = 0, rank = 0\<rparr> \<lparr>file = 0, rank = 7\<rparr> =
     [js ''a2'', js ''a3'', js ''a4'', js ''a5'', js ''a6'', js ''a7'']"
  by (simp add: squaresBetween_def upto.simps squareName_in_range js_def)

lemma initBoard_a2: "initBoard (js ''a2'') = Some [0x2659]"
  by (simp add: initBoard_def objectAssign_def js_def)

text \<open>
  C2 (as amended). For every board and every pair of coordinates, the rook check returns,
  and it returns true iff the two squares share the file or the rank (one of the two,
  or both: the null move passes) and every square strictly between them is empty.
\<close>

theorem isValidRookMove_line_and_path:
  "isValidRookMove b src dst =
     Some ((file src = file dst \<or> rank src = rank dst) \<and>
           (\<forall>sq \<in> set (squaresBetween src dst). \<not> truthy (b sq)))"
  by (rule rook_result)

theorem isValidRookMove_line_and_path_witness:
  "isValidRookMove Map.empty \<lparr>file = 0, rank = 0\<rparr> \<lparr>file = 0, rank = 7\<rparr> = Some True \<and>
   isValidRookMove initBoard \<lparr>file = 0, rank = 0\<rparr> \<lparr>file = 0, rank = 7\<rparr> = Some False \<and>
   isValidRookMove Map.empty \<lparr>file = 0, rank = 0\<rparr> \<lparr>file = 1, rank = 2\<rparr> = Some False"
  using isValidRookMove_line_and_path [of Map.empty "\<lparr>file = 0, rank = 0\<rparr>" "\<lparr>file = 0, rank = 7\<rparr>"]
    isValidRookMove_line_and_path [of initBoard "\<lparr>file = 0, rank = 0\<rparr>" "\<lparr>file = 0, rank = 7\<rparr>"]
    isValidRookMove_line_and_path [of Map.empty "\<lparr>file = 0, rank = 0\<rparr>" "\<lparr>file = 1, rank = 2\<rparr>"]
  by (simp add: squaresBetween_a1_a8 truthy_def initBoard_a2)

theorem isValidRookMove_xor_counterexample:
  "isValidRookMove Map.empty \<lparr>file = 0, rank = 0\<rparr> \<lparr>file = 0, rank = 0\<rparr> = Some True \<and>
   (((file \<lparr>file = 0, rank = 0\<rparr> = file \<lparr>file = 0, rank = 0\<rparr>) \<noteq>
     (rank \<lparr>file = 0, rank = 0\<rparr> = rank \<lparr>file = 0, rank = 0\<rparr>)) \<and>
    (\<forall>sq \<in> set (squaresBetween \<lparr>file = 0, rank = 0\<rparr> \<lparr>file = 0, rank = 0\<rparr>).
       \<not> truthy (Map.empty sq))) = False"
  by (simp add: isValidRookMove_def isPathClear_same)

text \<open>
  C10. The full legality check rejects the null move on every board, for every square
  and every mover, although the rook and the queen check alone accept it.
\<close>

theorem isValidMove_rejects_null_move:
  "isValidMove b sq sq mover = Some False \<and>
   isValidRookMove b c c = Some True \<and>
   isValidQueenMove b c c = Some True"
  by (simp add: null_move_rejected isValidQueenMove_def isValidRookMove_def isPathClear_same)

theorem isValidMove_rejects_null_move_witness:
  "isValidMove initBoard (js ''a2'') (js ''a2'') White = Some False \<and>
   isValidMove initBoard (js ''a2'') (js ''a2'') Black = Some False \<and>
   isValidMove initBoard (js ''e4'') (js ''e4'') White = Some False \<and>
   isValidRookMove initBoard \<lparr>file = 0, rank = 0\<rparr> \<lparr>file = 0, rank = 0\<rparr> = Some True \<and>
   isValidQueenMove initBoard \<lparr>file = 3, rank = 0\<rparr> \<lparr>file = 3, rank = 0\<rparr> = Some True"
  using isValidMove_rejects_null_move [of initBoard "js ''a2''" White "\<lparr>file = 0, rank = 0\<rparr>"]
    isValidMove_rejects_null_move [of initBoard "js ''a2''" Black "\<lparr>file = 3, rank = 0\<rparr>"]
    isValidMove_rejects_null_move [of initBoard "js ''e4''" White "\<lparr>file = 0, rank = 0\<rparr>"]
  by simp

text \<open>
  C8. For every file and rank in 0..7, the name built for the square is a valid square
  and its coordinates are that file and rank again.
\<close>

theorem square_round_trip:
  assumes "0 \<le> f" "f \<le> 7" "0 \<le> r" "r \<le> 7"
  shows "isValidSquare (squareName f r) \<and>
         getSquareCoordinates (squareName f r) = Some \<lparr>file = f, rank = r\<rparr>"
proof -
  have name: "squareName f r = [nat (97 + f), nat (49 + r)]"
    using assms by (rule squareName_in_range)
  have "isValidSquare [nat (97 + f), nat (49 + r)]"
    using assms by (simp add: isValidSquare_iff) arith
  moreover have "getSquareCoordinates [nat (97 + f), nat (49 + r)] = Some \<lparr>file = f, rank = r\<rparr>"
  proof -
    have "48 \<le> nat (49 + r)" "nat (49 + r) \<le> 57" "int (nat (49 + r)) - 48 - 1 = r"
      "int (nat (97 + f)) - 97 = f"
      using assms by simp_all
    then show ?thesis by (simp add: getSquareCoordinates_def parseInt_def)
  qed
  ultimately show ?thesis by (simp add: name)
qed

theorem square_round_trip_witness:
  "squareName 4 1 = js ''e2'' \<and> isValidSquare (js ''e2'') \<and>
   getSquareCoordinates (js ''e2'') = Some \<lparr>file = 4, rank = 1\<rparr>"
proof -
  have name: "squareName 4 1 = js ''e2''"
    by (simp add: squareName_in_range js_def)
  show ?thesis
    using square_round_trip [of 4 1] by (simp add: name)
qed

section \<open>The initial board\<close>

lemma dom_objectAssign: "dom (objectAssign m props) = dom m \<union> fst ` set props"
  unfolding objectAssign_def
  by (induction props arbitrary: m) (auto split: prod.splits)

lemma file_cases: "0 \<le> f \<Longrightarrow> f \<le> 7 \<Longrightarrow> f \<in> {0, 1, 2, 3, 4, 5, 6, 7::int}"
  by auto

lemma initBoard_dom: "dom initBoard = set initialSquares"
  by (simp add: initBoard_def dom_objectAssign Let_def initialSquares_def) blast

lemma initBoard_count: "card (dom initBoard) = 32"
proof -
  have "distinct initialSquares"
    by (simp add: initialSquares_def js_def)
  moreover have "length initialSquares = 32"
    by (simp add: initialSquares_def)
  ultimately show ?thesis
    by (simp add: initBoard_dom distinct_card)
qed

lemma initBoard_dom_shape:
  assumes "sq \<in> dom initBoard"
  shows "\<exists>c d. sq = [c, d] \<and> 97 \<le> c \<and> c \<le> 104 \<and> (d = 49 \<or> d = 50 \<or> d = 55 \<or> d = 56)"
  using assms unfolding initBoard_dom by (auto simp: initialSquares_def js_def)

lemma initBoard_file:
  assumes "0 \<le> f" "f \<le> 7"
  shows "(\<exists>p. initBoard (squareName f 0) = Some p \<and> getPieceColor p = Some White \<and>
              getPieceType p = backRank ! nat f) \<and>
         (\<exists>p. initBoard (squareName f 1) = Some p \<and> getPieceColor p = Some White \<and>
              getPieceType p = Pawn) \<and>
         (\<exists>p. initBoard (squareName f 6) = Some p \<and> getPieceColor p = Some Black \<and>
              getPieceType p = Pawn) \<and>
         (\<exists>p. initBoard (squareName f 7) = Some p \<and> getPieceColor p = Some Black \<and>
              getPieceType p = backRank ! nat f) \<and>
         initBoard (squareName f 2) = None \<and> initBoard (squareName f 3) = None \<and>
         initBoard (squareName f 4) = None \<and> initBoard (squareName f 5) = None"
proof -
  have "f \<in> {0, 1, 2, 3, 4, 5, 6, 7}" using assms by (rule file_cases)
  then show ?thesis
    by (elim insertE emptyE)
       (simp_all add: squareName_in_range initBoard_def objectAssign_def js_def
          getPieceColor_def isWhitePiece_def isBlackPiece_def whiteGlyphs_def blackGlyphs_def
          getPieceType_def backRank_def)
qed


lemma initBoard_keys:
  "dom initBoard = {squareName f r | f r. 0 \<le> f \<and> f \<le> 7 \<and> r \<in> {0, 1, 6, 7}}"
proof (intro set_eqI iffI)
  fix sq assume "sq \<in> dom initBoard"
  then obtain c d where sq: "sq = [c, d]" and c: "97 \<le> c" "c \<le> 104"
    and d: "d = 49 \<or> d = 50 \<or> d = 55 \<or> d = 56"
    using initBoard_dom_shape by blast
  let ?f = "int c - 97" and ?r = "int d - 49"
  have "squareName ?f ?r = sq"
    using c d by (auto simp: squareName_in_range sq)
  moreover have "0 \<le> ?f" "?f \<le> 7" "?r \<in> {0, 1, 6, 7}"
    using c d by auto
  ultimately show "sq \<in> {squareName f r | f r. 0 \<le> f \<and> f \<le> 7 \<and> r \<in> {0, 1, 6, 7}}"
    by blast
next
  fix sq assume "sq \<in> {squareName f r | f r. 0 \<le> f \<and> f \<le> 7 \<and> r \<in> {0, 1, 6, 7}}"
  then obtain f r where sq: "sq = squareName f r" and f: "0 \<le> f" "f \<le> 7"
    and r: "r = 0 \<or> r = 1 \<or> r = 6 \<or> r = 7"
    by auto
  from r initBoard_file [OF f] show "sq \<in> dom initBoard"
    unfolding sq by (elim disjE) auto
qed

text \<open>
  C9. The initial board holds exactly 32 pieces, all of them on the ranks 1, 2, 7 and 8:
  on every file a White pawn on rank 2 and a Black pawn on rank 7, the White and the
  Black piece of the conventional back rank (rook, knight, bishop, queen, king, bishop,
  knight, rook from file a to file h) on ranks 1 and 8, and nothing on ranks 3 to 6.
\<close>

theorem initBoard_standard_setup:
  "card (dom initBoard) = 32 \<and>
   dom initBoard = {squareName f r | f r. 0 \<le> f \<and> f \<le> 7 \<and> r \<in> {0, 1, 6, 7}} \<and>
   (\<forall>f \<in> {0..7}.
      (\<exists>p. initBoard (squareName f 0) = Some p \<and> getPieceColor p = Some White \<and>
           getPieceType p = backRank ! nat f) \<and>
      (\<exists>p. initBoard (squareName f 1) = Some p \<and> getPieceColor p = Some White \<and>
           getPieceType p = Pawn) \<and>
      (\<exists>p. initBoard (squareName f 6) = Some p \<and> getPieceColor p = Some Black \<and>
           getPieceType p = Pawn) \<and>
      (\<exists>p. initBoard (squareName f 7) = Some p \<and> getPieceColor p = Some Black \<and>
           getPieceType p = backRank ! nat f) \<and>
      (\<forall>r \<in> {2..5}. initBoard (squareName f r) = None))"
proof (intro conjI ballI)
  show "card (dom initBoard) = 32" by (rule initBoard_count)
  show "dom initBoard = {squareName f r | f r. 0 \<le> f \<and> f \<le> 7 \<and> r \<in> {0, 1, 6, 7}}"
    by (rule initBoard_keys)
next
  fix f :: int assume "f \<in> {0..7}"
  then have f: "0 \<le> f" "f \<le> 7" by simp_all
  note row = initBoard_file [OF f]
  show "\<exists>p. initBoard (squareName f 0) = Some p \<and> getPieceColor p = Some White \<and>
           getPieceType p = backRank ! nat f"
    using row by blast
  show "\<exists>p. initBoard (squareName f 1) = Some p \<and> getPieceColor p = Some White \<and>
           getPieceType p = Pawn"
    using row by blast
  show "\<exists>p. initBoard (squareName f 6) = Some p \<and> getPieceColor p = Some Black \<and>
           getPieceType p = Pawn"
    using row by blast
  show "\<exists>p. initBoard (squareName f 7) = Some p \<and> getPieceColor p = Some Black \<and>
           getPieceType p = backRank ! nat f"
    using row by blast
  fix r :: int assume "r \<in> {2..5}"
  then have "r = 2 \<or> r = 3 \<or> r = 4 \<or> r = 5" by auto
  then show "initBoard (squareName f r) = None"
    using row by auto
qed

theorem initBoard_standard_setup_witness:
  "initBoard (js ''e1'') = Some [0x2654] \<and> getPieceType [0x2654] = King \<and>
   initBoard (js ''e2'') = Some [0x2659] \<and> getPieceType [0x2659] = Pawn \<and>
   initBoard (js ''e7'') = Some [0x265F] \<and> getPieceType [0x265F] = Pawn \<and>
   initBoard (js ''e8'') = Some [0x265A] \<and> getPieceType [0x265A] = King \<and>
   initBoard (js ''e4'') = None \<and> card (dom initBoard) = 32"
proof -
  have names: "squareName 4 0 = js ''e1''" "squareName 4 1 = js ''e2''"
    "squareName 4 6 = js ''e7''" "squareName 4 7 = js ''e8''" "squareName 4 3 = js ''e4''"
    by (simp_all add: squareName_in_range js_def)
  have in_files: "(4::int) \<in> {0..7}" and in_ranks: "(3::int) \<in> {2..5}" by simp_all
  have "initBoard (squareName 4 3) = None" "card (dom initBoard) = 32"
    using initBoard_standard_setup in_files in_ranks by blast+
  then show ?thesis
    by (simp add: names initBoard_def objectAssign_def js_def getPieceType_def)
qed

section \<open>The pawn\<close>

lemma pawn_squares:
  "squareName 4 2 = js ''e3''" "squareName 4 3 = js ''e4''" "squareName 4 4 = js ''e5''"
  "squareName 3 2 = js ''d3''"
  by (simp_all add: squareName_in_range js_def)

lemma initBoard_middle:
  "initBoard (js ''e3'') = None" "initBoard (js ''e4'') = None" "initBoard (js ''e5'') = None"
  "initBoard (js ''d3'') = None"
  by (simp_all add: initBoard_def objectAssign_def js_def)

lemma pawn_result:
  "isValidPawnMove b src dst isWhite \<longleftrightarrow>
     (let direction = (if isWhite then 1 else - 1);
          startRank = (if isWhite then 1 else 6);
          df = file dst - file src;
          dr = rank dst - rank src;
          target = b (squareName (file dst) (rank dst));
          between = b (squareName (file src) (rank src + direction))
      in (df = 0 \<and> dr = direction \<and> \<not> truthy target) \<or>
         (df = 0 \<and> dr = 2 * direction \<and> rank src = startRank \<and>
            \<not> truthy between \<and> \<not> truthy target) \<or>
         (\<bar>df\<bar> = 1 \<and> dr = direction \<and> truthy target \<and>
            (\<exists>p. target = Some p \<and>
                 getPieceColor p \<noteq> Some (if isWhite then White else Black))))"
proof (cases "file dst = file src")
  case True
  then show ?thesis
    by (auto simp: isValidPawnMove_def Let_def)
next
  case False
  then show ?thesis
    by (auto simp: isValidPawnMove_def Let_def truthy_def split: option.splits)
qed

lemma other_colour:
  assumes "getPieceColor p \<noteq> None"
  shows "getPieceColor p \<noteq> Some (if isWhite then White else Black) \<longleftrightarrow>
         getPieceColor p = Some (if isWhite then Black else White)"
proof -
  from assms obtain c where c: "getPieceColor p = Some c" by auto
  show ?thesis unfolding c by (cases c; cases isWhite) simp_all
qed

lemma pieceBoard_target:
  assumes "pieceBoard b" "truthy (b sq)"
  shows "(\<exists>p. b sq = Some p \<and> getPieceColor p \<noteq> Some (if isWhite then White else Black)) \<longleftrightarrow>
         (\<exists>p. b sq = Some p \<and> getPieceColor p = Some (if isWhite then Black else White))"
proof -
  from assms(2) obtain q where q: "b sq = Some q" "q \<noteq> []"
    by (auto simp: truthy_def split: option.splits)
  with assms(1) have "getPieceColor q \<noteq> None"
    by (auto simp: pieceBoard_def)
  from other_colour [OF this, of isWhite] show ?thesis
    by (simp add: q)
qed

lemma pieceBoard_write:
  assumes "pieceBoard b" "getPieceColor p \<noteq> None"
  shows "pieceBoard (b(sq \<mapsto> p))"
  using assms by (auto simp: pieceBoard_def)

lemma pieceBoard_delete:
  assumes "pieceBoard b"
  shows "pieceBoard (b(sq := None))"
  using assms by (auto simp: pieceBoard_def)

lemma glyph_colours:
  "getPieceColor [0x2654] = Some White" "getPieceColor [0x2655] = Some White"
  "getPieceColor [0x2656] = Some White" "getPieceColor [0x2657] = Some White"
  "getPieceColor [0x2658] = Some White" "getPieceColor [0x2659] = Some White"
  "getPieceColor [0x265A] = Some Black" "getPieceColor [0x265B] = Some Black"
  "getPieceColor [0x265C] = Some Black" "getPieceColor [0x265D] = Some Black"
  "getPieceColor [0x265E] = Some Black" "getPieceColor [0x265F] = Some Black"
  by (simp_all add: getPieceColor_def isWhitePiece_def isBlackPiece_def whiteGlyphs_def
        blackGlyphs_def)

lemma pieceBoard_objectAssign:
  assumes "pieceBoard b" "\<forall>(k, v) \<in> set props. getPieceColor v \<noteq> None"
  shows "pieceBoard (objectAssign b props)"
  using assms unfolding objectAssign_def
proof (induction props arbitrary: b)
  case Nil
  then show ?case by simp
next
  case (Cons kv props)
  obtain k v where kv: "kv = (k, v)" by (cases kv) auto
  have written: "pieceBoard (b(k \<mapsto> v))"
    using Cons.prems by (auto simp: kv intro: pieceBoard_write)
  have rest: "\<forall>(k, v) \<in> set props. getPieceColor v \<noteq> None"
    using Cons.prems by simp
  have "pieceBoard (fold (\<lambda>(k, v) m. m(k \<mapsto> v)) props (b(k \<mapsto> v)))"
    by (rule Cons.IH [OF written rest])
  then show ?case
    by (simp only: kv fold.simps o_apply prod.case)
qed

lemma pieceBoard_initBoard: "pieceBoard initBoard"
proof -
  have "pieceBoard Map.empty" by (simp add: pieceBoard_def)
  then show ?thesis
    unfolding initBoard_def Let_def
    by (intro pieceBoard_objectAssign) (simp_all add: glyph_colours)
qed

text \<open>
  C5. On every board of pieces, the pawn check accepts exactly: the single step forward
  (\<open>df = 0\<close>, \<open>dr = direction\<close>, +1 for White and -1 for Black) onto an empty square;
  the double step forward from the start rank (zero-based 1 for White, 6 for Black) over
  an empty square onto an empty square; and the diagonal step forward (\<open>|df| = 1\<close>,
  \<open>dr = direction\<close>) onto a square that holds a piece of the opposite colour. Every
  other move of the pawn is refused.
\<close>

theorem isValidPawnMove_cases:
  assumes "pieceBoard b"
  shows "isValidPawnMove b src dst isWhite \<longleftrightarrow>
     (let direction = (if isWhite then 1 else - 1);
          startRank = (if isWhite then 1 else 6);
          df = file dst - file src;
          dr = rank dst - rank src;
          target = b (squareName (file dst) (rank dst));
          between = b (squareName (file src) (rank src + direction))
      in (df = 0 \<and> dr = direction \<and> \<not> truthy target) \<or>
         (df = 0 \<and> dr = 2 * direction \<and> rank src = startRank \<and>
            \<not> truthy between \<and> \<not> truthy target) \<or>
         (\<bar>df\<bar> = 1 \<and> dr = direction \<and> truthy target \<and>
            (\<exists>p. target = Some p \<and>
                 getPieceColor p = Some (if isWhite then Black else White))))"
proof (cases "truthy (b (squareName (file dst) (rank dst)))")
  case True
  from pieceBoard_target [OF assms True, of isWhite] show ?thesis
    unfolding pawn_result [of b src dst isWhite] Let_def by simp
next
  case False
  then show ?thesis
    unfolding pawn_result [of b src dst isWhite] Let_def by simp
qed

theorem isValidPawnMove_cases_witness:
  "pieceBoard initBoard \<and>
   pieceBoard (initBoard(js ''d3'' \<mapsto> [0x265F])) \<and>
   pieceBoard (initBoard(js ''d3'' \<mapsto> [0x2659])) \<and>
   isValidPawnMove initBoard \<lparr>file = 4, rank = 1\<rparr> \<lparr>file = 4, rank = 2\<rparr> True \<and>
   isValidPawnMove initBoard \<lparr>file = 4, rank = 1\<rparr> \<lparr>file = 4, rank = 3\<rparr> True \<and>
   \<not> isValidPawnMove initBoard \<lparr>file = 4, rank = 1\<rparr> \<lparr>file = 4, rank = 4\<rparr> True \<and>
   \<not> isValidPawnMove initBoard \<lparr>file = 4, rank = 1\<rparr> \<lparr>file = 3, rank = 2\<rparr> True \<and>
   isValidPawnMove (initBoard(js ''d3'' \<mapsto> [0x265F]))
     \<lparr>file = 4, rank = 1\<rparr> \<lparr>file = 3, rank = 2\<rparr> True \<and>
   \<not> isValidPawnMove (initBoard(js ''d3'' \<mapsto> [0x2659]))
     \<lparr>file = 4, rank = 1\<rparr> \<lparr>file = 3, rank = 2\<rparr> True"
proof -
  have start: "pieceBoard initBoard"
    by (rule pieceBoard_initBoard)
  have black: "pieceBoard (initBoard(js ''d3'' \<mapsto> [0x265F]))"
    by (rule pieceBoard_write [OF start]) (simp add: glyph_colours)
  have white: "pieceBoard (initBoard(js ''d3'' \<mapsto> [0x2659]))"
    by (rule pieceBoard_write [OF start]) (simp add: glyph_colours)
  show ?thesis
    using start black white
      isValidPawnMove_cases [OF start, of "\<lparr>file = 4, rank = 1\<rparr>" "\<lparr>file = 4, rank = 2\<rparr>" True]
      isValidPawnMove_cases [OF start, of "\<lparr>file = 4, rank = 1\<rparr>" "\<lparr>file = 4, rank = 3\<rparr>" True]
      isValidPawnMove_cases [OF start, of "\<lparr>file = 4, rank = 1\<rparr>" "\<lparr>file = 4, rank = 4\<rparr>" True]
      isValidPawnMove_cases [OF start, of "\<lparr>file = 4, rank = 1\<rparr>" "\<lparr>file = 3, rank = 2\<rparr>" True]
      isValidPawnMove_cases [OF black, of "\<lparr>file = 4, rank = 1\<rparr>" "\<lparr>file = 3, rank = 2\<rparr>" True]
      isValidPawnMove_cases [OF white, of "\<lparr>file = 4, rank = 1\<rparr>" "\<lparr>file = 3, rank = 2\<rparr>" True]
    by (simp add: pawn_squares initBoard_middle truthy_def glyph_colours)
qed

section \<open>The session\<close>

lemma initBoard_e2: "initBoard (js ''e2'') = Some [0x2659]"
  by (simp add: initBoard_def objectAssign_def js_def)

lemma valid_e_squares:
  "isValidSquare (js ''e2'')" "isValidSquare (js ''e4'')" "isValidSquare (js ''e5'')"
  by (simp_all add: isValidSquare_def js_def)

lemma coordinates_e_squares:
  "getSquareCoordinates (js ''e2'') = Some \<lparr>file = 4, rank = 1\<rparr>"
  "getSquareCoordinates (js ''e4'') = Some \<lparr>file = 4, rank = 3\<rparr>"
  "getSquareCoordinates (js ''e5'') = Some \<lparr>file = 4, rank = 4\<rparr>"
  by (simp_all add: getSquareCoordinates_def parseInt_def js_def)

lemma white_pawn: "getPieceColor [0x2659] = Some White" "getPieceType [0x2659] = Pawn"
  "isWhitePiece [0x2659]"
  by (simp_all add: getPieceColor_def isWhitePiece_def whiteGlyphs_def getPieceType_def)

lemma e2_e4_valid: "isValidMove initBoard (js ''e2'') (js ''e4'') White = Some True"
  by (simp add: isValidMove_def isValidPieceMove_def isValidPawnMove_def valid_e_squares
        coordinates_e_squares initBoard_e2 initBoard_middle white_pawn pawn_squares truthy_def)

lemma e2_e5_invalid: "isValidMove initBoard (js ''e2'') (js ''e5'') White = Some False"
  by (simp add: isValidMove_def isValidPieceMove_def isValidPawnMove_def valid_e_squares
        coordinates_e_squares initBoard_e2 initBoard_middle white_pawn pawn_squares truthy_def)

lemma makeMove_e2_e4:
  "makeMove (newChessGame (js ''1'')) (js ''e2'') (js ''e4'') now = Some (True, afterE2E4 now)"
  by (simp add: makeMove_def newChessGame_def afterE2E4_def valid_e_squares initBoard_e2 e2_e4_valid)

lemma makeMove_rejected_iff:
  "makeMove g src dst now = Some (False, g') \<longleftrightarrow>
     g' = g \<and> (\<not> isValidSquare src \<or> \<not> isValidSquare dst \<or> \<not> truthy (board g src) \<or>
               isValidMove (board g) src dst (currentPlayer g) = Some False)"
  using isValidMove_returns [of "board g" src dst "currentPlayer g"]
  by (auto simp: makeMove_def truthy_def split: option.splits bool.splits)

lemma makeMove_accepted_iff:
  "makeMove g src dst now = Some (True, g') \<longleftrightarrow>
     isValidMove (board g) src dst (currentPlayer g) = Some True \<and>
     (\<exists>p. board g src = Some p \<and>
          g' = g\<lparr>board := ((board g)(dst \<mapsto> p))(src := None),
                 moveHistory := moveHistory g @
                   [\<lparr>from = src, to = dst, piece = p, player = currentPlayer g, timestamp = now\<rparr>],
                 currentPlayer := (if currentPlayer g = White then Black else White)\<rparr>)"
  by (auto simp: makeMove_def isValidMove_def split: option.splits bool.splits)

lemma makeMove_flags:
  assumes "makeMove g src dst now = Some (ok, g')"
  shows "gameOver g' = gameOver g \<and> winner g' = winner g \<and> gameId g' = gameId g"
proof (cases ok)
  case True
  with assms show ?thesis by (auto simp: makeMove_accepted_iff)
next
  case False
  with assms show ?thesis by (auto simp: makeMove_rejected_iff)
qed

lemma makeMoves_flags:
  "\<exists>g'. makeMoves g attempts = Some g' \<and> gameOver g' = gameOver g \<and> winner g' = winner g"
proof (induction attempts arbitrary: g)
  case Nil
  show ?case by simp
next
  case (Cons a attempts)
  obtain src dst now where a: "a = (src, dst, now)" by (cases a) auto
  obtain ok g1 where step: "makeMove g src dst now = Some (ok, g1)"
    using makeMove_returns by blast
  from Cons.IH [of g1] makeMove_flags [OF step] show ?case
    by (simp add: a step)
qed

section \<open>Rejected attempts and the gameOver flag\<close>

lemma makeMove_pieceBoard:
  assumes "makeMove g src dst now = Some (ok, g')" "pieceBoard (board g)"
  shows "pieceBoard (board g')"
proof (cases ok)
  case False
  with assms show ?thesis by (simp add: makeMove_rejected_iff)
next
  case True
  with assms(1) obtain p where p: "board g src = Some p" "p \<noteq> []"
    and g': "board g' = ((board g)(dst \<mapsto> p))(src := None)"
    by (auto simp: makeMove_accepted_iff isValidMove_def split: if_splits option.splits)
  from assms(2) p have "getPieceColor p \<noteq> None"
    by (auto simp: pieceBoard_def)
  then show ?thesis
    unfolding g' by (intro pieceBoard_delete pieceBoard_write assms(2))
qed

lemma makeMoves_pieceBoard:
  assumes "makeMoves g attempts = Some g'" "pieceBoard (board g)"
  shows "pieceBoard (board g')"
  using assms
proof (induction attempts arbitrary: g)
  case Nil
  then show ?case by simp
next
  case (Cons a attempts)
  obtain src dst now where a: "a = (src, dst, now)" by (cases a) auto
  obtain ok g1 where step: "makeMove g src dst now = Some (ok, g1)"
    using makeMove_returns by blast
  from makeMove_pieceBoard [OF step Cons.prems(2)] Cons.prems(1) Cons.IH [of g1]
  show ?case by (simp add: a step)
qed

lemma session_pieceBoard:
  assumes "makeMoves (newChessGame gid) attempts = Some g"
  shows "pieceBoard (board g)"
  using makeMoves_pieceBoard [OF assms] pieceBoard_initBoard
  by (simp add: newChessGame_def)

text \<open>
  C1 (as amended). \<^verbatim>\<open>makeMove\<close> has no check of the \<^verbatim>\<open>gameOver\<close> flag and never
  writes it: on a session with the flag set to any value, an attempt is rejected or
  applied exactly as on the same session otherwise, and the flag stays as it was.
\<close>

theorem makeMove_ignores_gameOver:
  "makeMove (g\<lparr>gameOver := flag\<rparr>) src dst now =
     map_option (\<lambda>(ok, g'). (ok, g'\<lparr>gameOver := flag\<rparr>)) (makeMove g src dst now) \<and>
   map_option (\<lambda>(ok, g'). gameOver g') (makeMove g src dst now) = Some (gameOver g)"
proof
  show "makeMove (g\<lparr>gameOver := flag\<rparr>) src dst now =
     map_option (\<lambda>(ok, g'). (ok, g'\<lparr>gameOver := flag\<rparr>)) (makeMove g src dst now)"
    by (auto simp: makeMove_def split: option.splits bool.splits)
  obtain ok g' where step: "makeMove g src dst now = Some (ok, g')"
    using makeMove_returns by blast
  with makeMove_flags [OF step]
  show "map_option (\<lambda>(ok, g'). gameOver g') (makeMove g src dst now) = Some (gameOver g)"
    by simp
qed

theorem makeMove_ignores_gameOver_witness:
  "makeMove ((newChessGame (js ''1''))\<lparr>gameOver := True\<rparr>) (js ''e2'') (js ''e4'') (js ''t'') =
     Some (True, (afterE2E4 (js ''t''))\<lparr>gameOver := True\<rparr>)"
  using makeMove_ignores_gameOver [where g = "newChessGame (js ''1'')" and flag = True
      and src = "js ''e2''" and dst = "js ''e4''" and now = "js ''t''"]
  by (simp add: makeMove_e2_e4)

theorem makeMove_gameOver_counterexample:
  "map_option fst
     (makeMove ((newChessGame (js ''1''))\<lparr>gameOver := True\<rparr>) (js ''e2'') (js ''e4'') (js ''t'')) =
     Some True \<and>
   map_option (\<lambda>r. currentPlayer (snd r))
     (makeMove ((newChessGame (js ''1''))\<lparr>gameOver := True\<rparr>) (js ''e2'') (js ''e4'') (js ''t'')) =
     Some Black \<and>
   map_option fst
     (postMove [js ''1'' \<mapsto> (newChessGame (js ''1''))\<lparr>gameOver := True\<rparr>]
        (js ''1'') (js ''e2'') (js ''e4'') (js ''t'')) =
     Some (Success (getGameState ((afterE2E4 (js ''t''))\<lparr>gameOver := True\<rparr>)))"
proof -
  have "makeMove ((newChessGame (js ''1''))\<lparr>gameOver := True\<rparr>) (js ''e2'') (js ''e4'') (js ''t'') =
     Some (True, (afterE2E4 (js ''t''))\<lparr>gameOver := True\<rparr>)"
    by (simp add: makeMove_def newChessGame_def afterE2E4_def valid_e_squares initBoard_e2 e2_e4_valid)
  then show ?thesis
    by (simp add: postMove_def newChessGame_def afterE2E4_def)
qed

text \<open>
  C3. Every move attempt returns, and a rejected one leaves the session as it was: the
  board, the turn and the history are unchanged. An attempt is rejected exactly when a
  square is invalid, the origin is empty or the legality check (colour, self-capture,
  geometry) says no. A route that answers with an error leaves every session as it was.
\<close>

theorem rejected_move_changes_nothing:
  "(\<exists>ok g'. makeMove g src dst now = Some (ok, g')) \<and>
   (\<forall>g'. makeMove g src dst now = Some (False, g') \<longrightarrow>
      g' = g \<and> board g' = board g \<and> currentPlayer g' = currentPlayer g \<and>
      moveHistory g' = moveHistory g) \<and>
   (makeMove g src dst now = Some (False, g) \<longleftrightarrow>
      \<not> isValidSquare src \<or> \<not> isValidSquare dst \<or> \<not> truthy (board g src) \<or>
      isValidMove (board g) src dst (currentPlayer g) = Some False) \<and>
   (\<forall>code msg reg'. postMove reg gid src dst now = Some (Error code msg, reg') \<longrightarrow> reg' = reg) \<and>
   (\<forall>code msg reg'. postAiMove reg gid ai now = Some (Error code msg, reg') \<longrightarrow> reg' = reg)"
proof (intro conjI allI impI)
  show "\<exists>ok g'. makeMove g src dst now = Some (ok, g')" by (rule makeMove_returns)
  show "makeMove g src dst now = Some (False, g) \<longleftrightarrow>
      \<not> isValidSquare src \<or> \<not> isValidSquare dst \<or> \<not> truthy (board g src) \<or>
      isValidMove (board g) src dst (currentPlayer g) = Some False"
    by (simp add: makeMove_rejected_iff)
next
  fix g' assume r: "makeMove g src dst now = Some (False, g')"
  then have "g' = g" by (simp add: makeMove_rejected_iff)
  then show "g' = g" "board g' = board g" "currentPlayer g' = currentPlayer g"
    "moveHistory g' = moveHistory g" by simp_all
next
  fix code msg reg' assume "postMove reg gid src dst now = Some (Error code msg, reg')"
  then show "reg' = reg"
    by (auto simp: postMove_def makeMove_rejected_iff map_upd_triv
             split: option.splits if_splits bool.splits)
next
  fix code msg reg' assume "postAiMove reg gid ai now = Some (Error code msg, reg')"
  then show "reg' = reg"
    by (auto simp: postAiMove_def makeMove_rejected_iff map_upd_triv
             split: option.splits if_splits bool.splits aiResponse.splits prod.splits)
qed

theorem rejected_move_changes_nothing_witness:
  "makeMove (newChessGame (js ''1'')) (js ''e2'') (js ''e5'') (js ''t'') =
     Some (False, newChessGame (js ''1'')) \<and>
   postMove [js ''1'' \<mapsto> newChessGame (js ''1'')] (js ''1'') (js ''e2'') (js ''e5'') (js ''t'') =
     Some (Error 400 ''Invalid move'', [js ''1'' \<mapsto> newChessGame (js ''1'')])"
proof -
  have illegal: "isValidMove (board (newChessGame (js ''1''))) (js ''e2'') (js ''e5'')
      (currentPlayer (newChessGame (js ''1''))) = Some False"
    by (simp add: newChessGame_def e2_e5_invalid)
  have rejected: "makeMove (newChessGame (js ''1'')) (js ''e2'') (js ''e5'') (js ''t'') =
     Some (False, newChessGame (js ''1''))"
    using rejected_move_changes_nothing [where g = "newChessGame (js ''1'')"
        and src = "js ''e2''" and dst = "js ''e5''" and now = "js ''t''"]
      illegal by blast
  then show ?thesis
    by (simp add: postMove_def newChessGame_def)
qed

section \<open>Applied moves, turns and termination\<close>

text \<open>
  C4. A move attempt that passes the legality check succeeds, and then the piece that
  stood on the origin stands on the destination (over whatever stood there), the origin
  is empty, every other square is as before, the history is the old one with one record
  (from, to, piece, mover, timestamp) appended, and the turn is the other colour.
\<close>

theorem accepted_move_effect:
  assumes "isValidMove (board g) src dst (currentPlayer g) = Some True"
  shows "\<exists>p g'. makeMove g src dst now = Some (True, g') \<and>
           board g src = Some p \<and> p \<noteq> [] \<and> src \<noteq> dst \<and>
           board g' dst = Some p \<and> board g' src = None \<and>
           board g' = ((board g)(dst \<mapsto> p))(src := None) \<and>
           moveHistory g' = moveHistory g @
             [\<lparr>from = src, to = dst, piece = p, player = currentPlayer g, timestamp = now\<rparr>] \<and>
           currentPlayer g' = (if currentPlayer g = White then Black else White) \<and>
           currentPlayer g' \<noteq> currentPlayer g"
proof -
  have distinct_squares: "src \<noteq> dst"
    using assms null_move_rejected [of "board g" src "currentPlayer g"] by auto
  from assms obtain p where p: "board g src = Some p" "p \<noteq> []"
    by (auto simp: isValidMove_def split: if_splits option.splits)
  define g' where "g' = g\<lparr>board := ((board g)(dst \<mapsto> p))(src := None),
      moveHistory := moveHistory g @
        [\<lparr>from = src, to = dst, piece = p, player = currentPlayer g, timestamp = now\<rparr>],
      currentPlayer := (if currentPlayer g = White then Black else White)\<rparr>"
  have "makeMove g src dst now = Some (True, g')"
    using assms p by (simp add: makeMove_accepted_iff g'_def)
  moreover have "board g' dst = Some p" "board g' src = None"
    using distinct_squares by (simp_all add: g'_def)
  moreover have "board g' = ((board g)(dst \<mapsto> p))(src := None)"
    "moveHistory g' = moveHistory g @
       [\<lparr>from = src, to = dst, piece = p, player = currentPlayer g, timestamp = now\<rparr>]"
    "currentPlayer g' = (if currentPlayer g = White then Black else White)"
    "currentPlayer g' \<noteq> currentPlayer g"
    by (simp_all add: g'_def)
  ultimately show ?thesis
    using p distinct_squares by blast
qed

theorem accepted_move_effect_witness:
  "isValidMove (board (newChessGame (js ''1''))) (js ''e2'') (js ''e4'')
     (currentPlayer (newChessGame (js ''1''))) = Some True \<and>
   makeMove (newChessGame (js ''1'')) (js ''e2'') (js ''e4'') (js ''t'') =
     Some (True, afterE2E4 (js ''t'')) \<and>
   board (afterE2E4 (js ''t'')) (js ''e4'') = Some [0x2659] \<and>
   board (afterE2E4 (js ''t'')) (js ''e2'') = None \<and>
   length (moveHistory (afterE2E4 (js ''t''))) = 1 \<and>
   currentPlayer (afterE2E4 (js ''t'')) = Black"
proof -
  have legal: "isValidMove (board (newChessGame (js ''1''))) (js ''e2'') (js ''e4'')
     (currentPlayer (newChessGame (js ''1''))) = Some True"
    by (simp add: newChessGame_def e2_e4_valid)
  have applied: "makeMove (newChessGame (js ''1'')) (js ''e2'') (js ''e4'') (js ''t'') =
     Some (True, afterE2E4 (js ''t''))"
    by (rule makeMove_e2_e4)
  obtain p g' where effect:
    "makeMove (newChessGame (js ''1'')) (js ''e2'') (js ''e4'') (js ''t'') = Some (True, g')"
    "board g' (js ''e4'') = Some p" "board g' (js ''e2'') = None"
    "board (newChessGame (js ''1'')) (js ''e2'') = Some p"
    "moveHistory g' = moveHistory (newChessGame (js ''1'')) @
       [\<lparr>from = js ''e2'', to = js ''e4'', piece = p,
         player = currentPlayer (newChessGame (js ''1'')), timestamp = js ''t''\<rparr>]"
    "currentPlayer g' = (if currentPlayer (newChessGame (js ''1'')) = White then Black else White)"
    using accepted_move_effect [OF legal, of "js ''t''"] by blast
  from effect(1) applied have same: "g' = afterE2E4 (js ''t'')" by simp
  have "board (afterE2E4 (js ''t'')) (js ''e4'') = Some [0x2659] \<and>
        board (afterE2E4 (js ''t'')) (js ''e2'') = None \<and>
        length (moveHistory (afterE2E4 (js ''t''))) = 1 \<and>
        currentPlayer (afterE2E4 (js ''t'')) = Black"
    using effect(2-6) unfolding same by (simp add: newChessGame_def initBoard_e2)
  with legal applied show ?thesis by blast
qed





text \<open>
  C7. After any run of move attempts on a freshly created session, \<^verbatim>\<open>gameOver\<close> is
  false and \<^verbatim>\<open>winner\<close> is null.
\<close>

theorem chess_session_never_over:
  "\<exists>g. makeMoves (newChessGame gid) attempts = Some g \<and> \<not> gameOver g \<and> winner g = None"
  using makeMoves_flags [of "newChessGame gid" attempts]
  by (simp add: newChessGame_def)

theorem chess_session_never_over_witness:
  "makeMoves (newChessGame (js ''1''))
     [(js ''e2'', js ''e4'', js ''t''), (js ''e2'', js ''e5'', js ''t'')] =
     Some (afterE2E4 (js ''t'')) \<and>
   \<not> gameOver (afterE2E4 (js ''t'')) \<and> winner (afterE2E4 (js ''t'')) = None"
proof -
  have second: "makeMove (afterE2E4 (js ''t'')) (js ''e2'') (js ''e5'') (js ''t'') =
      Some (False, afterE2E4 (js ''t''))"
    by (simp add: makeMove_def afterE2E4_def valid_e_squares)
  have run: "makeMoves (newChessGame (js ''1''))
     [(js ''e2'', js ''e4'', js ''t''), (js ''e2'', js ''e5'', js ''t'')] =
     Some (afterE2E4 (js ''t''))"
    by (simp add: makeMove_e2_e4 second)
  with chess_session_never_over [of "js ''1''"
      "[(js ''e2'', js ''e4'', js ''t''), (js ''e2'', js ''e5'', js ''t'')]"]
  show ?thesis by simp
qed

end
